theory Spec2Isabelle
  imports Main
begin

section \<open>Text\<close>

text \<open>
  A Python \<^verbatim>\<open>str\<close> is a sequence of Unicode code points. It is modelled as a list of
  natural numbers, one per code point, so that \<^verbatim>\<open>strip\<close>, \<^verbatim>\<open>replace\<close> and \<^verbatim>\<open>join\<close>
  count what the source counts. \<open>py\<close> embeds an ASCII literal.
\<close>

type_synonym pystr = "nat list"

definition py :: "string \<Rightarrow> pystr" where
  "py s = map of_char s"

text \<open>The character \<^verbatim>\<open>'\<close>, U+0027.\<close>

definition apostrophe :: pystr where
  "apostrophe = [39]"

text \<open>
  \<^verbatim>\<open>str.isspace\<close> for one code point: the characters whose bidirectional class is
  WS, B or S, or whose general category is Zs.
\<close>

definition isspace :: "nat \<Rightarrow> bool" where
  "isspace c \<longleftrightarrow>
     (9 \<le> c \<and> c \<le> 13) \<or> (28 \<le> c \<and> c \<le> 32) \<or> c = 133 \<or> c = 160 \<or> c = 5760 \<or>
     (8192 \<le> c \<and> c \<le> 8202) \<or> c = 8232 \<or> c = 8233 \<or> c = 8239 \<or> c = 8287 \<or> c = 12288"

definition py_strip :: "pystr \<Rightarrow> pystr" where
  "py_strip s = rev (dropWhile isspace (rev (dropWhile isspace s)))"

text \<open>
  \<^verbatim>\<open>s.replace(old, new)\<close>: every non-overlapping occurrence of \<open>old\<close>, leftmost first.
  For an empty \<open>old\<close> Python puts \<open>new\<close> before every character and at the end.
\<close>

function py_replace :: "pystr \<Rightarrow> pystr \<Rightarrow> pystr \<Rightarrow> pystr" where
  "py_replace old new s =
     (if old = [] then new @ concat (map (\<lambda>c. c # new) s)
      else if s = [] then []
      else if take (length old) s = old then new @ py_replace old new (drop (length old) s)
      else hd s # py_replace old new (tl s))"
  by pat_completeness auto
termination
  by (relation "measure (\<lambda>(old, new, s). length s)") auto

declare py_replace.simps [simp del]

text \<open>\<^verbatim>\<open>sep.join(xs)\<close>.\<close>

fun py_join :: "pystr \<Rightarrow> pystr list \<Rightarrow> pystr" where
  "py_join sep [] = []"
| "py_join sep [x] = x"
| "py_join sep (x # y # ys) = x @ sep @ py_join sep (y # ys)"

text \<open>The decimal digits of a natural number, for \<^verbatim>\<open>str\<close> of an \<^verbatim>\<open>int\<close>.\<close>

fun digits :: "nat \<Rightarrow> pystr" where
  "digits n = (if n < 10 then [48 + n] else digits (n div 10) @ [48 + n mod 10])"

declare digits.simps [simp del]

section \<open>Values\<close>

text \<open>
  The values \<^verbatim>\<open>json.loads\<close> can return. A \<^verbatim>\<open>dict\<close> is an association list in insertion
  order (its keys are distinct); a \<^verbatim>\<open>float\<close> is held as its \<^verbatim>\<open>repr\<close>, the only thing the
  program does with one being to print it.
\<close>

datatype pyval =
    PNone
  | PBool bool
  | PInt int
  | PFloat pystr
  | PStr pystr
  | PList "pyval list"
  | PDict "(pystr \<times> pyval) list"

text \<open>\<^verbatim>\<open>d.get(key)\<close>: the value stored under the key, \<^verbatim>\<open>None\<close> when there is none.\<close>

definition dict_get :: "(pystr \<times> pyval) list \<Rightarrow> pystr \<Rightarrow> pyval" where
  "dict_get d k = (case map_of d k of Some v \<Rightarrow> v | None \<Rightarrow> PNone)"

text \<open>\<^verbatim>\<open>type(v).__name__\<close>.\<close>

fun type_name :: "pyval \<Rightarrow> pystr" where
  "type_name PNone = py ''NoneType''"
| "type_name (PBool b) = py ''bool''"
| "type_name (PInt i) = py ''int''"
| "type_name (PFloat r) = py ''float''"
| "type_name (PStr s) = py ''str''"
| "type_name (PList xs) = py ''list''"
| "type_name (PDict d) = py ''dict''"

text \<open>
  \<^verbatim>\<open>str(v)\<close>, which is what an f-string field \<^verbatim>\<open>{v}\<close> prints. The text of a list or a
  dict is built from the \<^verbatim>\<open>repr\<close> of its elements, which depends on the Unicode
  database; it is taken from the interpreter, the first argument.
\<close>

fun py_str :: "(pyval \<Rightarrow> pystr) \<Rightarrow> pyval \<Rightarrow> pystr" where
  "py_str rp PNone = py ''None''"
| "py_str rp (PBool b) = (if b then py ''True'' else py ''False'')"
| "py_str rp (PInt i) = (if i < 0 then py ''-'' @ digits (nat (- i)) else digits (nat i))"
| "py_str rp (PFloat r) = r"
| "py_str rp (PStr s) = s"
| "py_str rp (PList xs) = rp (PList xs)"
| "py_str rp (PDict d) = rp (PDict d)"

section \<open>Exceptions\<close>

text \<open>
  An exception is its class and its \<^verbatim>\<open>str(e)\<close>. The classes are those the handlers of
  the program tell apart: \<^verbatim>\<open>json.JSONDecodeError\<close> (a \<^verbatim>\<open>ValueError\<close>), the other
  subclasses of \<^verbatim>\<open>Exception\<close>, and \<open>NonException\<close> for a \<^verbatim>\<open>BaseException\<close> that is not
  an \<^verbatim>\<open>Exception\<close> (\<^verbatim>\<open>asyncio.CancelledError\<close>, \<^verbatim>\<open>KeyboardInterrupt\<close>), which
  \<^verbatim>\<open>except Exception\<close> lets through.
\<close>

datatype exc_class =
  JSONDecodeError | ValueError | TypeError | AttributeError | OtherException | NonException

datatype exn = Exn (cls: exc_class) (msg: pystr)

definition is_Exception :: "exn \<Rightarrow> bool" where
  "is_Exception e \<longleftrightarrow> cls e \<noteq> NonException"

definition is_JSONDecodeError :: "exn \<Rightarrow> bool" where
  "is_JSONDecodeError e \<longleftrightarrow> cls e = JSONDecodeError"

text \<open>
  \<^verbatim>\<open>iter(v)\<close> of a \<^verbatim>\<open>for\<close> loop: the elements of a list, the keys of a dict, the
  characters of a string; anything else is not iterable.
\<close>

fun py_iter :: "pyval \<Rightarrow> exn + pyval list" where
  "py_iter (PList xs) = Inr xs"
| "py_iter (PDict d) = Inr (map (\<lambda>kv. PStr (fst kv)) d)"
| "py_iter (PStr s) = Inr (map (\<lambda>c. PStr [c]) s)"
| "py_iter v =
     Inl (Exn TypeError (apostrophe @ type_name v @ apostrophe @ py '' object is not iterable''))"

section \<open>The outside world\<close>

text \<open>
  One call of the browser driver, as \<^verbatim>\<open>execute_playwright_plan\<close> makes them:
  \<^verbatim>\<open>async_playwright().start()\<close>, \<^verbatim>\<open>chromium.launch(headless=...)\<close>, \<^verbatim>\<open>browser.new_page()\<close>,
  \<^verbatim>\<open>page.goto(url)\<close>, \<^verbatim>\<open>page.locator(selector).type(text)\<close>,
  \<^verbatim>\<open>page.locator(selector).click()\<close>, \<^verbatim>\<open>page.locator(selector).inner_text()\<close>,
  \<^verbatim>\<open>page.pause()\<close>, \<^verbatim>\<open>browser.close()\<close> and \<^verbatim>\<open>playwright.stop()\<close>.
\<close>

datatype call =
    Start
  | Launch bool
  | NewPage
  | Goto pyval
  | LocatorType pyval pyval
  | LocatorClick pyval
  | LocatorInnerText pyval
  | Pause
  | BrowserClose
  | PlaywrightStop

text \<open>A call returns a value or raises.\<close>

datatype response = Returns pyval | Raises exn

fun returns :: "response \<Rightarrow> bool" where
  "returns (Returns v) = True"
| "returns (Raises e) = False"

text \<open>
  The model object that \<^verbatim>\<open>genai.GenerativeModel\<close> builds: what
  \<^verbatim>\<open>generate_content(prompt).text\<close> gives for a prompt, or the exception it raises.
\<close>

datatype model = GenerativeModel "pystr \<Rightarrow> exn + pystr"

text \<open>
  Everything the program reaches outside itself. \<open>getenv\<close> is \<^verbatim>\<open>os.getenv\<close>;
  \<open>genai\<close> is \<^verbatim>\<open>genai.configure(api_key=...)\<close> followed by \<^verbatim>\<open>genai.GenerativeModel(name)\<close>;
  \<open>json_loads\<close> is \<^verbatim>\<open>json.loads\<close>; \<open>driver\<close> answers a browser call, given the calls
  made before it in this execution; \<open>repr\<close> prints a list or a dict.
\<close>

record world =
  getenv :: "pystr \<Rightarrow> pystr option"
  genai :: "pystr \<Rightarrow> pystr \<Rightarrow> exn + model"
  json_loads :: "pystr \<Rightarrow> exn + pyval"
  driver :: "call list \<Rightarrow> call \<Rightarrow> response"
  repr :: "pyval \<Rightarrow> pystr"

section \<open>The translator\<close>

text \<open>\<^verbatim>\<open>configure_nlp_module\<close>: \<^verbatim>\<open>not api_key\<close> holds for \<^verbatim>\<open>None\<close> and for the empty string.\<close>

definition configure_nlp_module :: "world \<Rightarrow> exn + model" where
  "configure_nlp_module W =
     (case getenv W (py ''GEMINI_API_KEY'') of
        None \<Rightarrow>
          Inl (Exn ValueError (py ''Gemini API key not found. Please set it in the .env file.''))
      | Some api_key \<Rightarrow>
          if api_key = [] then
            Inl (Exn ValueError (py ''Gemini API key not found. Please set it in the .env file.''))
          else genai W api_key (py ''gemini-1.5-flash-latest''))"

definition structured_prompt :: "pystr \<Rightarrow> pystr" where
  \<open>structured_prompt user_prompt =
     py ''\<newline>    You are an expert at converting user requests into a structured series of browser automation steps.\<newline>'' @
     py ''    Based on the user's request, provide a JSON array of actions to be executed by Playwright.\<newline>'' @
     py ''    \<newline>'' @
     py ''    The available actions are: "navigate", "click", "type", "extract_text", "end".\<newline>'' @
     py ''    \<newline>'' @
     py ''    - "navigate": Needs a "url" parameter.\<newline>'' @
     py ''    - "click": Needs a "selector" parameter (a CSS selector).\<newline>'' @
     py ''    - "type": Needs a "selector" and a "text" parameter.\<newline>'' @
     py ''    - "extract_text": Needs a "selector" and a "description" for what the text is.\<newline>'' @
     py ''    - "end": Signifies the end of the task and has a "message" parameter to show the user.\<newline>'' @
     py ''    \<newline>'' @
     py ''    User Request: "'' @ user_prompt @ py ''"\<newline>'' @
     py ''    \<newline>'' @
     py ''    Provide only the JSON array as your response.\<newline>'' @
     py ''    ''\<close>

text \<open>Line 49: the wrapping of the response is taken off.\<close>

definition clean_plan_text :: "pystr \<Rightarrow> pystr" where
  "clean_plan_text text =
     py_replace (py ''```'') [] (py_replace (py ''```json'') [] (py_strip text))"

fun generate_automation_plan :: "model \<Rightarrow> pystr \<Rightarrow> exn + pystr" where
  "generate_automation_plan (GenerativeModel generate_content) user_prompt =
     (case generate_content (structured_prompt user_prompt) of
        Inl e \<Rightarrow> Inl e
      | Inr text \<Rightarrow> Inr (clean_plan_text text))"

section \<open>The plan executor\<close>

text \<open>
  The local variables of \<^verbatim>\<open>execute_playwright_plan\<close>: the log \<^verbatim>\<open>results\<close>, whether
  \<^verbatim>\<open>playwright\<close> and \<^verbatim>\<open>browser\<close> hold a handle (a handle is truthy) or still \<^verbatim>\<open>None\<close>,
  and the browser calls made so far, oldest first.
\<close>

record exec_state =
  results :: "pystr list"
  playwright :: bool
  browser :: bool
  calls :: "call list"

definition initial_state :: exec_state where
  "initial_state = \<lparr>results = [], playwright = False, browser = False, calls = []\<rparr>"

text \<open>An awaited browser call: it is recorded, and returns or raises as the driver says.\<close>

definition perform :: "world \<Rightarrow> call \<Rightarrow> exec_state \<Rightarrow> (exn + pyval) \<times> exec_state" where
  "perform W c s =
     (case driver W (calls s) c of
        Returns v \<Rightarrow> (Inr v, s\<lparr>calls := calls s @ [c]\<rparr>)
      | Raises e \<Rightarrow> (Inl e, s\<lparr>calls := calls s @ [c]\<rparr>))"

text \<open>\<^verbatim>\<open>results.append(line)\<close>.\<close>

definition append_result :: "pystr \<Rightarrow> exec_state \<Rightarrow> exec_state" where
  "append_result line s = s\<lparr>results := results s @ [line]\<rparr>"

text \<open>How one round of the loop ends: on to the next step, or \<^verbatim>\<open>break\<close>.\<close>

datatype flow = Next | Break

text \<open>
  The body of the \<^verbatim>\<open>for\<close> loop, lines 68 to 90. \<^verbatim>\<open>step.get\<close> exists on a dict only;
  on any other value the attribute lookup raises.
\<close>

fun exec_step :: "world \<Rightarrow> pyval \<Rightarrow> exec_state \<Rightarrow> (exn + flow) \<times> exec_state" where
  "exec_step W (PDict step) s =
     (let action = dict_get step (py ''action'') in
      if action = PStr (py ''navigate'') then
        (case perform W (Goto (dict_get step (py ''url''))) s of
           (Inl e, s') \<Rightarrow> (Inl e, s')
         | (Inr v, s') \<Rightarrow>
             (Inr Next,
              append_result
                (py ''Navigated to '' @ py_str (repr W) (dict_get step (py ''url''))) s'))
      else if action = PStr (py ''type'') then
        (case perform W
                (LocatorType (dict_get step (py ''selector'')) (dict_get step (py ''text''))) s of
           (Inl e, s') \<Rightarrow> (Inl e, s')
         | (Inr v, s') \<Rightarrow>
             (Inr Next,
              append_result
                (py ''Typed '' @ apostrophe @ py_str (repr W) (dict_get step (py ''text'')) @
                 apostrophe @ py '' into '' @ apostrophe @
                 py_str (repr W) (dict_get step (py ''selector'')) @ apostrophe) s'))
      else if action = PStr (py ''click'') then
        (case perform W (LocatorClick (dict_get step (py ''selector''))) s of
           (Inl e, s') \<Rightarrow> (Inl e, s')
         | (Inr v, s') \<Rightarrow>
             (Inr Next,
              append_result
                (py ''Clicked on '' @ apostrophe @
                 py_str (repr W) (dict_get step (py ''selector'')) @ apostrophe) s'))
      else if action = PStr (py ''extract_text'') then
        (case perform W (LocatorInnerText (dict_get step (py ''selector''))) s of
           (Inl e, s') \<Rightarrow> (Inl e, s')
         | (Inr text_content, s') \<Rightarrow>
             (Inr Next,
              append_result
                (py ''Extracted Data ('' @ py_str (repr W) (dict_get step (py ''description'')) @
                 py ''): '' @ py_str (repr W) text_content) s'))
      else if action = PStr (py ''end'') then
        (Inr Break,
         append_result
           (py ''Task finished: '' @ py_str (repr W) (dict_get step (py ''message''))) s)
      else (Inr Next, s))"
| "exec_step W v s =
     (Inl (Exn AttributeError
             (apostrophe @ type_name v @ apostrophe @ py '' object has no attribute '' @
              apostrophe @ py ''get'' @ apostrophe)), s)"

text \<open>The \<^verbatim>\<open>for\<close> loop over the steps, line 67.\<close>

fun run_steps :: "world \<Rightarrow> pyval list \<Rightarrow> exec_state \<Rightarrow> (exn + flow) \<times> exec_state" where
  "run_steps W [] s = (Inr Next, s)"
| "run_steps W (step # rest) s =
     (case exec_step W step s of
        (Inr Next, s') \<Rightarrow> run_steps W rest s'
      | (Inr Break, s') \<Rightarrow> (Inr Break, s')
      | (Inl e, s') \<Rightarrow> (Inl e, s'))"

text \<open>Lines 63 to 65: the driver is started, the browser launched, the page opened.\<close>

definition acquire :: "world \<Rightarrow> exec_state \<Rightarrow> (exn + unit) \<times> exec_state" where
  "acquire W s =
     (case perform W Start s of
        (Inl e, s1) \<Rightarrow> (Inl e, s1)
      | (Inr v, s1) \<Rightarrow>
          (case perform W (Launch False) (s1\<lparr>playwright := True\<rparr>) of
             (Inl e, s2) \<Rightarrow> (Inl e, s2)
           | (Inr v, s2) \<Rightarrow>
               (case perform W NewPage (s2\<lparr>browser := True\<rparr>) of
                  (Inl e, s3) \<Rightarrow> (Inl e, s3)
                | (Inr v, s3) \<Rightarrow> (Inr (), s3))))"

text \<open>The two lines appended after the loop, lines 92 to 94. U+2705 is the check mark.\<close>

definition finished_line :: pystr where
  "finished_line = [10, 9989] @ py '' Automation finished. The browser is now paused.''"

definition close_line :: pystr where
  "close_line = py ''Close the browser window manually to run a new command.''"

text \<open>Lines 92 to 95: what follows the loop inside the \<^verbatim>\<open>try\<close>.\<close>

definition park :: "world \<Rightarrow> exec_state \<Rightarrow> (exn + unit) \<times> exec_state" where
  "park W s =
     (case perform W Pause (append_result close_line (append_result finished_line s)) of
        (Inl e, s') \<Rightarrow> (Inl e, s')
      | (Inr v, s') \<Rightarrow> (Inr (), s'))"

text \<open>The body of the \<^verbatim>\<open>try\<close>, lines 63 to 95.\<close>

definition try_body :: "world \<Rightarrow> pyval \<Rightarrow> exec_state \<Rightarrow> (exn + unit) \<times> exec_state" where
  "try_body W plan s =
     (case acquire W s of
        (Inl e, s1) \<Rightarrow> (Inl e, s1)
      | (Inr u, s1) \<Rightarrow>
          (case py_iter plan of
             Inl e \<Rightarrow> (Inl e, s1)
           | Inr steps \<Rightarrow>
               (case run_steps W steps s1 of
                  (Inl e, s2) \<Rightarrow> (Inl e, s2)
                | (Inr f, s2) \<Rightarrow> park W s2)))"

text \<open>
  \<^verbatim>\<open>except Exception as e\<close>, lines 97 and 98. The first component of the result is the
  exception still in flight, if any.
\<close>

fun except_clause :: "(exn + unit) \<times> exec_state \<Rightarrow> exn option \<times> exec_state" where
  "except_clause (Inl e, s) =
     (if is_Exception e then (None, append_result (py ''An error occurred: '' @ msg e) s)
      else (Some e, s))"
| "except_clause (Inr u, s) = (None, s)"

text \<open>
  \<^verbatim>\<open>finally\<close>, lines 99 to 104. An exception raised here replaces the one in flight
  and ends the block.
\<close>

definition stop_playwright :: "world \<Rightarrow> exn option \<Rightarrow> exec_state \<Rightarrow> exn option \<times> exec_state" where
  "stop_playwright W pending s =
     (if playwright s then
        (case perform W PlaywrightStop s of
           (Inl e, s') \<Rightarrow> (Some e, s')
         | (Inr v, s') \<Rightarrow> (pending, s'))
      else (pending, s))"

fun finally_clause :: "world \<Rightarrow> exn option \<times> exec_state \<Rightarrow> exn option \<times> exec_state" where
  "finally_clause W (pending, s) =
     (if browser s then
        (case perform W BrowserClose s of
           (Inl e, s') \<Rightarrow> (Some e, s')
         | (Inr v, s') \<Rightarrow> stop_playwright W pending s')
      else stop_playwright W pending s)"

text \<open>
  \<^verbatim>\<open>execute_playwright_plan\<close>: the returned string, or the exception that leaves the
  function; with it the final state, whose \<open>results\<close> and \<open>calls\<close> say what was done.
\<close>

definition execute_playwright_plan :: "world \<Rightarrow> pyval \<Rightarrow> (exn + pystr) \<times> exec_state" where
  "execute_playwright_plan W plan =
     (case finally_clause W (except_clause (try_body W plan initial_state)) of
        (Some e, s) \<Rightarrow> (Inl e, s)
      | (None, s) \<Rightarrow> (Inr (py_join [10] (results s)), s))"

section \<open>The orchestrator\<close>

text \<open>
  One run of the generator \<^verbatim>\<open>brain_orchestrator\<close>: the strings it yields, the exception
  that leaves it (if any), the value bound to \<^verbatim>\<open>plan\<close> (if line 120 got that far), and
  the browser calls of the run.
\<close>

record run =
  yields :: "pystr list"
  raised :: "exn option"
  decoded :: "pyval option"
  browser_calls :: "call list"

text \<open>The three f-strings that are yielded, lines 117, 124 and 126.\<close>

definition progress_message :: "pystr \<Rightarrow> pystr" where
  "progress_message plan_json_str =
     py ''Generated Plan:'' @ [10] @ plan_json_str @ [10, 10] @ py ''Executing...''"

definition decode_failure_message :: "pystr \<Rightarrow> pystr" where
  "decode_failure_message plan_json_str =
     py ''Error: Could not decode the plan from the LLM. Raw response:'' @ [10] @ plan_json_str"

definition execution_error_message :: "exn \<Rightarrow> pystr" where
  "execution_error_message e = py ''An execution error occurred: '' @ msg e"

text \<open>
  The two handlers, lines 123 to 126, entered after the first \<^verbatim>\<open>yield\<close>: what is yielded,
  and the exception that goes on to the caller when neither handler takes it.
\<close>

definition handlers :: "pystr \<Rightarrow> exn \<Rightarrow> pystr list \<times> exn option" where
  "handlers plan_json_str e =
     (if is_JSONDecodeError e then ([decode_failure_message plan_json_str], None)
      else if is_Exception e then ([execution_error_message e], None)
      else ([], Some e))"

text \<open>
  \<^verbatim>\<open>brain_orchestrator\<close>. Lines 115 and 116 stand before the \<^verbatim>\<open>try\<close>: what they raise
  leaves the generator before anything is yielded.
\<close>

definition brain_orchestrator :: "world \<Rightarrow> pystr \<Rightarrow> run" where
  "brain_orchestrator W user_prompt =
     (case configure_nlp_module W of
        Inl e \<Rightarrow> \<lparr>yields = [], raised = Some e, decoded = None, browser_calls = []\<rparr>
      | Inr model \<Rightarrow>
          (case generate_automation_plan model user_prompt of
             Inl e \<Rightarrow> \<lparr>yields = [], raised = Some e, decoded = None, browser_calls = []\<rparr>
           | Inr plan_json_str \<Rightarrow>
               (case json_loads W plan_json_str of
                  Inl e \<Rightarrow>
                    \<lparr>yields = progress_message plan_json_str # fst (handlers plan_json_str e),
                     raised = snd (handlers plan_json_str e),
                     decoded = None, browser_calls = []\<rparr>
                | Inr plan \<Rightarrow>
                    (case execute_playwright_plan W plan of
                       (Inr execution_result, s) \<Rightarrow>
                         \<lparr>yields = [progress_message plan_json_str, execution_result],
                          raised = None, decoded = Some plan, browser_calls = calls s\<rparr>
                     | (Inl e, s) \<Rightarrow>
                         \<lparr>yields = progress_message plan_json_str #
                                   fst (handlers plan_json_str e),
                          raised = snd (handlers plan_json_str e),
                          decoded = Some plan, browser_calls = calls s\<rparr>))))"

section \<open>The JSON decoder\<close>

text \<open>
  \<^verbatim>\<open>json.loads\<close> belongs to the standard library, and the program reaches it through the
  world. What the library does on a text is described here for a part of JSON: arrays,
  objects, strings without escape sequences, integers, \<^verbatim>\<open>true\<close>, \<^verbatim>\<open>false\<close> and \<^verbatim>\<open>null\<close>,
  with blanks between the tokens. \<open>json_decode\<close> gives the value \<^verbatim>\<open>json.loads\<close> returns
  for such a text. It gives \<open>None\<close> for a text that is not JSON, and also for a text that
  it does not describe: one with a fraction, an exponent, an escape sequence, \<^verbatim>\<open>NaN\<close> or
  \<^verbatim>\<open>Infinity\<close>, an integer of more than 4300 digits (which \<^verbatim>\<open>int\<close> refuses), or containers
  nested deeper than \<open>nesting_limit\<close> (where the interpreter may run out of stack and
  raise \<^verbatim>\<open>RecursionError\<close>).
\<close>

datatype token =
  LBracket | RBracket | LBrace | RBrace | Comma | Colon
  | TNull | TTrue | TFalse | TInt int | TString pystr

text \<open>The blanks of JSON: space, tab, line feed, carriage return.\<close>

definition json_ws :: "nat \<Rightarrow> bool" where
  "json_ws c \<longleftrightarrow> c = 32 \<or> c = 9 \<or> c = 10 \<or> c = 13"

text \<open>
  A character that stands for itself inside a string: not the quote, not the backslash,
  not a control character.
\<close>

definition plain :: "nat \<Rightarrow> bool" where
  "plain c \<longleftrightarrow> 32 \<le> c \<and> c \<noteq> 34 \<and> c \<noteq> 92"

definition is_digit :: "nat \<Rightarrow> bool" where
  "is_digit c \<longleftrightarrow> 48 \<le> c \<and> c \<le> 57"

definition nat_of_digits :: "pystr \<Rightarrow> nat" where
  "nat_of_digits ds = foldl (\<lambda>a c. 10 * a + (c - 48)) 0 ds"

text \<open>The integer part of a number: a lone \<^verbatim>\<open>0\<close>, or the longest run of digits.\<close>

definition integer_part :: "pystr \<Rightarrow> pystr" where
  "integer_part ds = (if take 1 ds = [48] then [48] else takeWhile is_digit ds)"

text \<open>
  The tokens of a text. A number followed by \<^verbatim>\<open>.\<close>, \<^verbatim>\<open>e\<close> or \<^verbatim>\<open>E\<close> is a float or an error,
  and is given up in both cases.
\<close>

function scan :: "pystr \<Rightarrow> token list option" where
  "scan [] = Some []"
| "scan (c # cs) =
     (if json_ws c then scan cs
      else if c = 91 then map_option (Cons LBracket) (scan cs)
      else if c = 93 then map_option (Cons RBracket) (scan cs)
      else if c = 123 then map_option (Cons LBrace) (scan cs)
      else if c = 125 then map_option (Cons RBrace) (scan cs)
      else if c = 44 then map_option (Cons Comma) (scan cs)
      else if c = 58 then map_option (Cons Colon) (scan cs)
      else if c = 34 then
        (case dropWhile plain cs of
           [] \<Rightarrow> None
         | q # rest \<Rightarrow>
             if q = 34 then map_option (Cons (TString (takeWhile plain cs))) (scan rest)
             else None)
      else if take 4 (c # cs) = py ''null'' then map_option (Cons TNull) (scan (drop 3 cs))
      else if take 4 (c # cs) = py ''true'' then map_option (Cons TTrue) (scan (drop 3 cs))
      else if take 5 (c # cs) = py ''false'' then map_option (Cons TFalse) (scan (drop 4 cs))
      else if c = 45 then
        (if integer_part cs = [] \<or> 4300 < length (integer_part cs) \<or>
            take 1 (drop (length (integer_part cs)) cs) \<in> {[46], [69], [101]}
         then None
         else map_option (Cons (TInt (- int (nat_of_digits (integer_part cs)))))
                (scan (drop (length (integer_part cs)) cs)))
      else
        (if integer_part (c # cs) = [] \<or> 4300 < length (integer_part (c # cs)) \<or>
            take 1 (drop (length (integer_part (c # cs))) (c # cs)) \<in> {[46], [69], [101]}
         then None
         else map_option (Cons (TInt (int (nat_of_digits (integer_part (c # cs))))))
                (scan (drop (length (integer_part (c # cs))) (c # cs)))))"
  by pat_completeness auto
termination
proof (relation "measure length", goal_cases)
  case 1 show ?case by simp
next
  case (9 c cs x y)
  have "length (dropWhile plain cs) \<le> length cs" by (rule length_dropWhile_le)
  with 9 show ?case by simp
next
  case (14 c cs)
  then show ?case by (cases "integer_part (c # cs)") simp_all
qed simp_all

text \<open>
  \<^verbatim>\<open>d[k] = v\<close> on a dict held in insertion order, and the dict that an object's pairs
  make: a key that comes twice keeps its first place and its last value.
\<close>

fun dict_set :: "(pystr \<times> pyval) list \<Rightarrow> pystr \<Rightarrow> pyval \<Rightarrow> (pystr \<times> pyval) list" where
  "dict_set [] k v = [(k, v)]"
| "dict_set ((k', v') # d) k v =
     (if k' = k then (k', v) # d else (k', v') # dict_set d k v)"

definition dict_of_pairs :: "(pystr \<times> pyval) list \<Rightarrow> (pystr \<times> pyval) list" where
  "dict_of_pairs pairs = foldl (\<lambda>d kv. dict_set d (fst kv) (snd kv)) [] pairs"

text \<open>
  A value, the items of an array after its bracket, the members of an object after its
  brace; each with the tokens that remain. \<open>fuel\<close> bounds the number of calls and \<open>depth\<close>
  the nesting of containers.
\<close>

fun parse_value :: "nat \<Rightarrow> nat \<Rightarrow> token list \<Rightarrow> (pyval \<times> token list) option"
  and parse_items :: "nat \<Rightarrow> nat \<Rightarrow> token list \<Rightarrow> (pyval list \<times> token list) option"
  and parse_members ::
    "nat \<Rightarrow> nat \<Rightarrow> token list \<Rightarrow> ((pystr \<times> pyval) list \<times> token list) option"
where
  "parse_value 0 depth ts = None"
| "parse_value (Suc fuel) depth ts =
     (case ts of
        TNull # r \<Rightarrow> Some (PNone, r)
      | TTrue # r \<Rightarrow> Some (PBool True, r)
      | TFalse # r \<Rightarrow> Some (PBool False, r)
      | TInt i # r \<Rightarrow> Some (PInt i, r)
      | TString s # r \<Rightarrow> Some (PStr s, r)
      | LBracket # RBracket # r \<Rightarrow> if depth = 0 then None else Some (PList [], r)
      | LBracket # r \<Rightarrow>
          if depth = 0 then None
          else map_option (apfst PList) (parse_items fuel (depth - 1) r)
      | LBrace # RBrace # r \<Rightarrow> if depth = 0 then None else Some (PDict [], r)
      | LBrace # r \<Rightarrow>
          if depth = 0 then None
          else map_option (apfst (\<lambda>pairs. PDict (dict_of_pairs pairs)))
                 (parse_members fuel (depth - 1) r)
      | _ \<Rightarrow> None)"
| "parse_items 0 depth ts = None"
| "parse_items (Suc fuel) depth ts =
     (case parse_value fuel depth ts of
        None \<Rightarrow> None
      | Some (v, Comma # r) \<Rightarrow> map_option (apfst (Cons v)) (parse_items fuel depth r)
      | Some (v, RBracket # r) \<Rightarrow> Some ([v], r)
      | Some _ \<Rightarrow> None)"
| "parse_members 0 depth ts = None"
| "parse_members (Suc fuel) depth ts =
     (case ts of
        TString k # Colon # r \<Rightarrow>
          (case parse_value fuel depth r of
             None \<Rightarrow> None
           | Some (v, Comma # r') \<Rightarrow>
               map_option (apfst (Cons (k, v))) (parse_members fuel depth r')
           | Some (v, RBrace # r') \<Rightarrow> Some ([(k, v)], r')
           | Some _ \<Rightarrow> None)
      | _ \<Rightarrow> None)"

text \<open>
  A nesting that the default recursion limit of the interpreter (1000 frames) leaves room
  for, whatever called the program.
\<close>

definition nesting_limit :: nat where
  "nesting_limit = 100"

text \<open>
  The whole text must be one value. Of two calls of the parser, one inside the other, at
  least one takes a token, so that twice the number of tokens is fuel enough.
\<close>

definition json_decode :: "pystr \<Rightarrow> pyval option" where
  "json_decode s =
     (case scan s of
        None \<Rightarrow> None
      | Some ts \<Rightarrow>
          (case parse_value (Suc (2 * length ts)) nesting_limit ts of
             Some (v, []) \<Rightarrow> Some v
           | _ \<Rightarrow> None))"

section \<open>Notions the properties are stated with\<close>

text \<open>
  Acquisition succeeds when the three calls of lines 63 to 65 return; \<open>acquired_state\<close> is
  the state of the executor right after them.
\<close>

definition acquisition_ok :: "world \<Rightarrow> bool" where
  "acquisition_ok W \<longleftrightarrow>
     returns (driver W [] Start) \<and> returns (driver W [Start] (Launch False)) \<and>
     returns (driver W [Start, Launch False] NewPage)"

definition acquired_state :: exec_state where
  "acquired_state =
     \<lparr>results = [], playwright = True, browser = True, calls = [Start, Launch False, NewPage]\<rparr>"

text \<open>The browser call that the loop body makes for a step, read off lines 70 to 90.\<close>

fun step_calls :: "pyval \<Rightarrow> call list" where
  "step_calls (PDict step) =
     (let action = dict_get step (py ''action'') in
      if action = PStr (py ''navigate'') then [Goto (dict_get step (py ''url''))]
      else if action = PStr (py ''type'') then
        [LocatorType (dict_get step (py ''selector'')) (dict_get step (py ''text''))]
      else if action = PStr (py ''click'') then [LocatorClick (dict_get step (py ''selector''))]
      else if action = PStr (py ''extract_text'') then
        [LocatorInnerText (dict_get step (py ''selector''))]
      else [])"
| "step_calls v = []"

text \<open>
  The calls of the \<^verbatim>\<open>finally\<close> block when both handles are set, \<open>tr\<close> being the calls made
  before it.
\<close>

definition release_calls :: "world \<Rightarrow> call list \<Rightarrow> call list" where
  "release_calls W tr =
     BrowserClose # (if returns (driver W tr BrowserClose) then [PlaywrightStop] else [])"

text \<open>What \<^verbatim>\<open>except Exception\<close> appends for an exception, and for the answer to a call.\<close>

fun caught :: "exn \<Rightarrow> pystr list" where
  "caught e = (if is_Exception e then [py ''An error occurred: '' @ msg e] else [])"

fun pause_lines :: "response \<Rightarrow> pystr list" where
  "pause_lines (Returns v) = []"
| "pause_lines (Raises e) = caught e"

text \<open>The calls made on the page between acquisition and release.\<close>

fun is_page_call :: "call \<Rightarrow> bool" where
  "is_page_call (Goto url) = True"
| "is_page_call (LocatorType selector text) = True"
| "is_page_call (LocatorClick selector) = True"
| "is_page_call (LocatorInnerText selector) = True"
| "is_page_call Pause = True"
| "is_page_call c = False"












section \<open>Sample worlds\<close>

text \<open>
  Worlds for concrete runs: a driver in which every call returns, a driver in which one
  given call raises, the texts of two translator replies, a \<^verbatim>\<open>json.loads\<close> that follows
  \<open>json_decode\<close> and raises the \<^verbatim>\<open>JSONDecodeError\<close> of a text that begins with no value
  where that gives none (the samples decode only texts that \<open>json_decode\<close> describes, and
  \<^verbatim>\<open>not-json\<close>), and a world built from an API key, a translator reply and a driver. No
  sample prints a list or a dict.
\<close>

definition obliging :: "call list \<Rightarrow> call \<Rightarrow> response" where
  "obliging tr c = Returns PNone"

definition failing_at :: "call \<Rightarrow> exn \<Rightarrow> call list \<Rightarrow> call \<Rightarrow> response" where
  "failing_at bad e tr c = (if c = bad then Raises e else Returns PNone)"

definition navigate_step :: pyval where
  "navigate_step =
     PDict [(py ''action'', PStr (py ''navigate'')),
            (py ''url'', PStr (py ''https://example.com''))]"

definition end_step :: pyval where
  "end_step = PDict [(py ''action'', PStr (py ''end'')), (py ''message'', PStr (py ''done''))]"

definition click_step :: pyval where
  "click_step =
     PDict [(py ''action'', PStr (py ''click'')), (py ''selector'', PStr (py ''#missing''))]"

definition scenario_A :: pyval where
  "scenario_A = PList [navigate_step, end_step]"

definition scenario_A_text :: pystr where
  \<open>scenario_A_text =
     py ''[{"action":"navigate","url":"https://example.com"},{"action":"end","message":"done"}]''\<close>


definition sample_loads :: "pystr \<Rightarrow> exn + pyval" where
  "sample_loads s =
     (case json_decode s of
        Some v \<Rightarrow> Inr v
      | None \<Rightarrow> Inl (Exn JSONDecodeError (py ''Expecting value: line 1 column 1 (char 0)'')))"

definition sample_world ::
  "pystr option \<Rightarrow> pystr \<Rightarrow> (call list \<Rightarrow> call \<Rightarrow> response) \<Rightarrow> world" where
  "sample_world key reply d =
     \<lparr>getenv = (\<lambda>name. if name = py ''GEMINI_API_KEY'' then key else None),
      genai = (\<lambda>api_key name. Inr (GenerativeModel (\<lambda>prompt. Inr reply))),
      json_loads = sample_loads,
      driver = d,
      repr = (\<lambda>v. [])\<rparr>"

definition timeout_error :: exn where
  "timeout_error = Exn OtherException (py ''Timeout 30000ms exceeded.'')"

definition all_return :: world where
  "all_return = sample_world None [] obliging"

definition click_fails :: world where
  "click_fails =
     sample_world None [] (failing_at (LocatorClick (PStr (py ''#missing''))) timeout_error)"

definition connection_error :: exn where
  "connection_error = Exn OtherException (py ''Connection closed while reading from the driver'')"

definition close_fails :: world where
  "close_fails = sample_world None [] (failing_at BrowserClose connection_error)"

definition stop_fails :: world where
  "stop_fails = sample_world None [] (failing_at PlaywrightStop connection_error)"

text \<open>
  Worlds for runs of the orchestrator: an API key, the reply of Scenario A wrapped in a
  fenced code block, a reply that is a lone JSON object, a reply that is no JSON at all, an
  environment without API key, a driver whose \<^verbatim>\<open>browser.close()\<close> raises, and a translator
  whose call raises.
\<close>

definition sample_key :: pystr where
  "sample_key = py ''sample-key''"

definition fenced_reply :: pystr where
  "fenced_reply = py ''```json'' @ ([10] @ scenario_A_text @ [10]) @ py ''```''"

definition scenario_A_world :: world where
  "scenario_A_world = sample_world (Some sample_key) fenced_reply obliging"



definition no_api_key :: world where
  "no_api_key = sample_world None fenced_reply obliging"

definition close_fails_keyed :: world where
  "close_fails_keyed =
     sample_world (Some sample_key) fenced_reply (failing_at BrowserClose connection_error)"

definition unavailable :: exn where
  "unavailable = Exn OtherException (py ''503 The service is currently unavailable.'')"

definition translator_down :: world where
  "translator_down =
     scenario_A_world\<lparr>genai := \<lambda>api_key name. Inr (GenerativeModel (\<lambda>prompt. Inl unavailable))\<rparr>"








section \<open>Lemmas on the executor\<close>

lemma py_eq_iff [simp]: "py a = py b \<longleftrightarrow> a = b"
  unfolding py_def by (simp add: inj_map_eq_map inj_on_def)

lemma py_append: "py (a @ b) = py a @ py b"
  by (simp add: py_def)

lemma perform_state:
  "perform W c s = (r, s') \<Longrightarrow> s' = s\<lparr>calls := calls s @ [c]\<rparr>"
  by (auto simp: perform_def split: response.splits)

lemma perform_result:
  "fst (perform W c s) = (case driver W (calls s) c of Returns v \<Rightarrow> Inr v | Raises e \<Rightarrow> Inl e)"
  by (simp add: perform_def split: response.splits)

lemma exec_step_state:
  assumes "exec_step W step s = (r, s')"
  shows "calls s' = calls s @ step_calls step \<and> playwright s' = playwright s \<and>
         browser s' = browser s \<and> (\<exists>ls. results s' = results s @ ls)"
proof (cases step)
  case (PDict d)
  with assms show ?thesis
    by (auto simp: Let_def perform_def append_result_def split: if_splits response.splits)
qed (use assms in auto)

lemma run_steps_state:
  "run_steps W steps s = (r, s') \<Longrightarrow>
     (\<exists>k\<le>length steps. calls s' = calls s @ concat (map step_calls (take k steps))) \<and>
     playwright s' = playwright s \<and> browser s' = browser s \<and>
     (\<exists>ls. results s' = results s @ ls)"
proof (induction steps arbitrary: s)
  case Nil
  then show ?case by simp
next
  case (Cons step rest)
  obtain r1 s1 where e: "exec_step W step s = (r1, s1)" by (cases "exec_step W step s")
  note st = exec_step_state [OF e]
  show ?case
  proof (cases r1)
    case (Inl x)
    with Cons.prems e have "s' = s1" by simp
    with st have "calls s' = calls s @ concat (map step_calls (take 1 (step # rest)))"
      by simp
    moreover have "(1::nat) \<le> length (step # rest)" by simp
    ultimately have "\<exists>k\<le>length (step # rest). calls s' = calls s @ concat (map step_calls (take k (step # rest)))"
      by blast
    with st \<open>s' = s1\<close> show ?thesis by simp
  next
    case (Inr f)
    show ?thesis
    proof (cases f)
      case Break
      with Inr Cons.prems e have "s' = s1" by simp
      with st have "calls s' = calls s @ concat (map step_calls (take 1 (step # rest)))"
        by simp
      moreover have "(1::nat) \<le> length (step # rest)" by simp
      ultimately have "\<exists>k\<le>length (step # rest). calls s' = calls s @ concat (map step_calls (take k (step # rest)))"
        by blast
      with st \<open>s' = s1\<close> show ?thesis by simp
    next
      case Next
      with Inr Cons.prems e have "run_steps W rest s1 = (r, s')" by simp
      from Cons.IH [OF this] obtain k ls where
        k: "k \<le> length rest" "calls s' = calls s1 @ concat (map step_calls (take k rest))"
        and o: "playwright s' = playwright s1" "browser s' = browser s1" "results s' = results s1 @ ls"
        by blast
      from k st have "calls s' = calls s @ concat (map step_calls (take (Suc k) (step # rest)))"
        by simp
      moreover have "Suc k \<le> length (step # rest)" using k by simp
      ultimately have "\<exists>k\<le>length (step # rest). calls s' = calls s @ concat (map step_calls (take k (step # rest)))"
        by blast
      moreover from st o obtain ls' where "results s' = results s @ ls'" by auto
      ultimately show ?thesis using st o by simp
    qed
  qed
qed

lemma exec_step_end:
  "dict_get d (py ''action'') = PStr (py ''end'') \<Longrightarrow>
   exec_step W (PDict d) s =
     (Inr Break, append_result (py ''Task finished: '' @ py_str (repr W) (dict_get d (py ''message''))) s)"
  by simp

lemma run_steps_append:
  "run_steps W (pre @ post) s =
     (case run_steps W pre s of (Inr Next, s') \<Rightarrow> run_steps W post s' | r \<Rightarrow> r)"
proof (induction pre arbitrary: s)
  case Nil
  then show ?case by simp
next
  case (Cons step pre)
  then show ?case
    by (simp split: prod.splits sum.splits flow.splits)
qed

lemma run_steps_end_cut:
  assumes "dict_get d (py ''action'') = PStr (py ''end'')"
  shows "run_steps W (pre @ PDict d # post) s = run_steps W (pre @ [PDict d]) s"
  using assms
  by (simp add: run_steps_append exec_step_end del: exec_step.simps split: prod.splits sum.splits flow.splits)

lemma acquire_ok:
  "acquisition_ok W \<Longrightarrow> acquire W initial_state = (Inr (), acquired_state)"
  by (auto simp: acquisition_ok_def acquire_def perform_def initial_state_def acquired_state_def
      elim!: returns.elims split: response.splits)

lemma try_body_ok:
  "acquisition_ok W \<Longrightarrow>
   try_body W plan initial_state =
     (case py_iter plan of
        Inl e \<Rightarrow> (Inl e, acquired_state)
      | Inr steps \<Rightarrow>
          (case run_steps W steps acquired_state of
             (Inl e, s2) \<Rightarrow> (Inl e, s2)
           | (Inr f, s2) \<Rightarrow> park W s2))"
  by (simp add: try_body_def acquire_ok)

lemma finally_held:
  "playwright s \<Longrightarrow> browser s \<Longrightarrow>
   finally_clause W (pending, s) =
     (case driver W (calls s) BrowserClose of
        Raises e \<Rightarrow> Some e
      | Returns v \<Rightarrow>
          (case driver W (calls s @ [BrowserClose]) PlaywrightStop of
             Raises e \<Rightarrow> Some e
           | Returns v \<Rightarrow> pending),
      s\<lparr>calls := calls s @ release_calls W (calls s)\<rparr>)"
  by (simp add: stop_playwright_def perform_def release_calls_def split: response.splits)

lemma run_steps_handles:
  assumes "run_steps W steps acquired_state = (r, s1)"
  shows "playwright s1" and "browser s1"
  using run_steps_state [OF assms] by (simp_all add: acquired_state_def)

lemma finally_held_state:
  "playwright s \<Longrightarrow> browser s \<Longrightarrow>
   snd (finally_clause W (pending, s)) = s\<lparr>calls := calls s @ release_calls W (calls s)\<rparr>"
  by (simp add: finally_held del: finally_clause.simps split: response.splits)

lemma execute_state:
  "snd (execute_playwright_plan W plan) =
     snd (finally_clause W (except_clause (try_body W plan initial_state)))"
  by (simp add: execute_playwright_plan_def split: prod.splits option.splits)

lemma execute_loop_done:
  assumes ok: "acquisition_ok W" and it: "py_iter plan = Inr steps"
    and run: "run_steps W steps acquired_state = (Inr f, s1)"
  shows "snd (execute_playwright_plan W plan) =
           s1\<lparr>results := results s1 @ [finished_line, close_line] @
                            pause_lines (driver W (calls s1) Pause),
              calls := calls s1 @ Pause # release_calls W (calls s1 @ [Pause])\<rparr>"
proof -
  note h = run_steps_handles [OF run]
  have tb: "try_body W plan initial_state = park W s1"
    by (simp add: try_body_ok [OF ok] it run)
  show ?thesis
  proof (cases "driver W (calls s1) Pause")
    case (Returns v)
    then show ?thesis
      using h by (simp add: execute_state tb park_def perform_def append_result_def
          finally_held_state del: finally_clause.simps)
  next
    case (Raises e)
    then show ?thesis
      using h by (simp add: execute_state tb park_def perform_def append_result_def
          finally_held_state del: finally_clause.simps)
  qed
qed

lemma execute_loop_raised:
  assumes ok: "acquisition_ok W" and it: "py_iter plan = Inr steps"
    and run: "run_steps W steps acquired_state = (Inl e, s1)"
  shows "snd (execute_playwright_plan W plan) =
           s1\<lparr>results := results s1 @ caught e,
              calls := calls s1 @ release_calls W (calls s1)\<rparr>"
proof -
  note h = run_steps_handles [OF run]
  have tb: "try_body W plan initial_state = (Inl e, s1)"
    by (simp add: try_body_ok [OF ok] it run)
  show ?thesis
    using h by (simp add: execute_state tb append_result_def
        finally_held_state del: finally_clause.simps)
qed

lemma exec_step_raises:
  assumes "exec_step W (PDict d) s = (Inl e, s')"
  shows "\<exists>c. step_calls (PDict d) = [c] \<and> driver W (calls s) c = Raises e \<and>
             results s' = results s"
  using assms
  by (auto simp: Let_def perform_def append_result_def split: if_splits response.splits)

lemma scenario_A_loop:
  assumes "driver W (calls s) (Goto (PStr (py ''https://example.com''))) = Returns v"
  shows "run_steps W
           [PDict [(py ''action'', PStr (py ''navigate'')),
                   (py ''url'', PStr (py ''https://example.com''))],
            PDict [(py ''action'', PStr (py ''end'')), (py ''message'', PStr (py ''done''))]] s =
         (Inr Break,
          s\<lparr>results := results s @
                  [py ''Navigated to https://example.com'', py ''Task finished: done''],
            calls := calls s @ [Goto (PStr (py ''https://example.com''))]\<rparr>)"
  using assms
  by (simp add: dict_get_def perform_def append_result_def py_append [symmetric])

lemma step_calls_no_pause: "Pause \<notin> set (step_calls v)"
  by (cases v) (simp_all add: Let_def)

lemma run_steps_no_pause:
  assumes "run_steps W steps acquired_state = (r, s1)"
  shows "Pause \<notin> set (calls s1)"
proof -
  from run_steps_state [OF assms] obtain k where
    "calls s1 = calls acquired_state @ concat (map step_calls (take k steps))" by blast
  then show ?thesis
    by (auto simp: acquired_state_def step_calls_no_pause)
qed

text \<open>Runs in the sample worlds.\<close>

lemma all_return_ok: "acquisition_ok all_return"
  by (simp add: acquisition_ok_def all_return_def sample_world_def obliging_def)

lemma all_return_scenario_A:
  "run_steps all_return [navigate_step, end_step] acquired_state =
     (Inr Break,
      acquired_state\<lparr>results := [py ''Navigated to https://example.com'',
                                  py ''Task finished: done''],
                      calls := [Start, Launch False, NewPage,
                                Goto (PStr (py ''https://example.com''))]\<rparr>)"
  by (simp add: navigate_step_def end_step_def all_return_def sample_world_def obliging_def
      dict_get_def perform_def append_result_def acquired_state_def py_append [symmetric])

lemma click_fails_ok: "acquisition_ok click_fails"
  by (simp add: acquisition_ok_def click_fails_def sample_world_def failing_at_def)

lemma click_fails_navigate:
  "run_steps click_fails [navigate_step] acquired_state =
     (Inr Next,
      acquired_state\<lparr>results := [py ''Navigated to https://example.com''],
                      calls := [Start, Launch False, NewPage,
                                Goto (PStr (py ''https://example.com''))]\<rparr>)"
  by (simp add: navigate_step_def click_fails_def sample_world_def failing_at_def dict_get_def
      perform_def append_result_def acquired_state_def py_append [symmetric])

lemma click_fails_click:
  "exec_step click_fails (PDict [(py ''action'', PStr (py ''click'')),
                                 (py ''selector'', PStr (py ''#missing''))]) s =
     (Inl timeout_error, s\<lparr>calls := calls s @ [LocatorClick (PStr (py ''#missing''))]\<rparr>)"
  by (simp add: click_fails_def sample_world_def failing_at_def dict_get_def perform_def)

lemma run_steps_take_end:
  assumes "i < length steps" and "steps ! i = PDict d"
    and "dict_get d (py ''action'') = PStr (py ''end'')"
  shows "run_steps W steps s = run_steps W (take (Suc i) steps) s"
proof -
  have "steps = take i steps @ PDict d # drop (Suc i) steps"
    using assms(1,2) by (metis id_take_nth_drop)
  then have "run_steps W steps s = run_steps W (take i steps @ PDict d # drop (Suc i) steps) s"
    by simp
  also have "\<dots> = run_steps W (take i steps @ [PDict d]) s"
    by (rule run_steps_end_cut [OF assms(3)])
  also have "take i steps @ [PDict d] = take (Suc i) steps"
    using assms(1,2) by (simp add: take_Suc_conv_app_nth)
  finally show ?thesis .
qed



lemma count_page_calls:
  "list_all is_page_call ops \<Longrightarrow> \<not> is_page_call c \<Longrightarrow> count_list ops c = 0"
  by (induction ops) (auto)




lemma perform_raises:
  "perform W c s = (Inl e, s') \<Longrightarrow> driver W (calls s) c = Raises e"
  by (auto simp: perform_def split: response.splits)

lemma exec_step_raises_Exception:
  assumes "\<forall>tr c e. driver W tr c = Raises e \<longrightarrow> is_Exception e"
    and "exec_step W step s = (Inl e, s')"
  shows "is_Exception e"
proof (cases step)
  case (PDict d)
  with assms(2) exec_step_raises [of W d s e s'] assms(1) show ?thesis by blast
qed (use assms(2) in \<open>auto simp: is_Exception_def\<close>)

lemma run_steps_raises_Exception:
  assumes "\<forall>tr c e. driver W tr c = Raises e \<longrightarrow> is_Exception e"
  shows "run_steps W steps s = (Inl e, s') \<Longrightarrow> is_Exception e"
proof (induction steps arbitrary: s)
  case Nil
  then show ?case by simp
next
  case (Cons step rest)
  obtain r1 s1 where e1: "exec_step W step s = (r1, s1)" by (cases "exec_step W step s")
  show ?case
  proof (cases r1)
    case (Inl x)
    with Cons.prems e1 have "x = e" by simp
    with Inl e1 exec_step_raises_Exception [OF assms] show ?thesis by blast
  next
    case (Inr f)
    with Cons.prems e1 have "f = Next" "run_steps W rest s1 = (Inl e, s')"
      by (cases f; simp)+
    then show ?thesis using Cons.IH by blast
  qed
qed

lemma try_body_raises_Exception:
  assumes d: "\<forall>tr c e. driver W tr c = Raises e \<longrightarrow> is_Exception e"
    and t: "try_body W plan s = (Inl e, s')"
  shows "is_Exception e"
proof -
  have it: "py_iter plan = Inl x \<Longrightarrow> is_Exception x" for x
    by (cases plan) (auto simp: is_Exception_def)
  from t show ?thesis
    unfolding try_body_def acquire_def park_def
    by (auto split: prod.splits sum.splits
        dest!: perform_raises run_steps_raises_Exception [OF d] it
        simp: d [rule_format])
qed

lemma finally_returns:
  assumes "\<forall>tr. returns (driver W tr BrowserClose)"
    and "\<forall>tr. returns (driver W tr PlaywrightStop)"
  shows "fst (finally_clause W (pending, s)) = pending \<and>
         results (snd (finally_clause W (pending, s))) = results s"
proof -
  from assms(1) obtain v where "driver W (calls s) BrowserClose = Returns v"
    by (metis returns.elims(2))
  moreover from assms(2) obtain v' where
    "driver W (calls s) PlaywrightStop = Returns v'"
    by (metis returns.elims(2))
  moreover from assms(2) obtain v'' where
    "driver W (calls s @ [BrowserClose]) PlaywrightStop = Returns v''"
    by (metis returns.elims(2))
  ultimately show ?thesis
    by (simp add: stop_playwright_def perform_def)
qed

lemma click_fails_release: "release_calls click_fails tr = [BrowserClose, PlaywrightStop]"
  by (simp add: release_calls_def click_fails_def sample_world_def failing_at_def)

lemma click_fails_plan:
  "snd (execute_playwright_plan click_fails (PList [navigate_step, click_step, end_step])) =
     acquired_state
       \<lparr>results := [py ''Navigated to https://example.com'',
                    py ''An error occurred: Timeout 30000ms exceeded.''],
        calls := [Start, Launch False, NewPage, Goto (PStr (py ''https://example.com'')),
                  LocatorClick (PStr (py ''#missing'')), BrowserClose, PlaywrightStop]\<rparr>"
proof -
  have "run_steps click_fails ([navigate_step] @ [click_step, end_step]) acquired_state =
      run_steps click_fails [click_step, end_step]
        (acquired_state\<lparr>results := [py ''Navigated to https://example.com''],
                        calls := [Start, Launch False, NewPage,
                                  Goto (PStr (py ''https://example.com''))]\<rparr>)"
    by (subst run_steps_append) (simp add: click_fails_navigate del: run_steps.simps)
  then have run: "run_steps click_fails [navigate_step, click_step, end_step] acquired_state =
      (Inl timeout_error,
       acquired_state\<lparr>results := [py ''Navigated to https://example.com''],
                       calls := [Start, Launch False, NewPage,
                                 Goto (PStr (py ''https://example.com'')),
                                 LocatorClick (PStr (py ''#missing''))]\<rparr>)"
    by (simp add: click_step_def click_fails_click del: exec_step.simps)
  have it: "py_iter (PList [navigate_step, click_step, end_step]) =
      Inr [navigate_step, click_step, end_step]" by simp
  show ?thesis
    unfolding execute_loop_raised [OF click_fails_ok it run]
    by (simp add: click_fails_release timeout_error_def is_Exception_def py_append [symmetric])
qed

lemma scenario_A_iter:
  "py_iter scenario_A =
      Inr [PDict [(py ''action'', PStr (py ''navigate'')),
                   (py ''url'', PStr (py ''https://example.com''))],
            PDict [(py ''action'', PStr (py ''end'')), (py ''message'', PStr (py ''done''))]]"
  by (simp add: scenario_A_def navigate_step_def end_step_def)

section \<open>Lemmas on the JSON decoder\<close>


































section \<open>Lemmas on the translator and the orchestrator\<close>

lemma py_Nil_iff [simp]: "py s = [] \<longleftrightarrow> s = []"
  by (simp add: py_def)

lemma py_replace_skip:
  assumes "old \<noteq> []" and "hd old \<notin> set s"
  shows "py_replace old new (s @ t) = s @ py_replace old new t"
  using assms
proof (induction s)
  case Nil
  then show ?case by simp
next
  case (Cons c s)
  from Cons.prems have ne: "take (length old) ((c # s) @ t) \<noteq> old"
    by (cases old) auto
  have "py_replace old new ((c # s) @ t) = c # py_replace old new (s @ t)"
    using Cons.prems(1) ne by (subst py_replace.simps) simp
  with Cons show ?case by simp
qed

lemma py_replace_prefix:
  assumes "old \<noteq> []"
  shows "py_replace old new (old @ t) = new @ py_replace old new t"
  using assms by (subst py_replace.simps) simp

lemma py_replace_empty: "old \<noteq> [] \<Longrightarrow> py_replace old new [] = []"
  by (subst py_replace.simps) simp

lemma py_strip_unchanged:
  assumes "s \<noteq> []" and "\<not> isspace (hd s)" and "\<not> isspace (last s)"
  shows "py_strip s = s"
proof -
  from assms(1,2) have "dropWhile isspace s = s" by (cases s) simp_all
  moreover from assms(1,3) have "dropWhile isspace (rev s) = rev s"
    by (cases "rev s") (simp_all add: last_rev [symmetric] del: last_rev)
  ultimately show ?thesis by (simp add: py_strip_def)
qed

lemma py_replace_short:
  "length s < length old \<Longrightarrow> py_replace old new s = s"
proof (induction s)
  case Nil
  then show ?case by (subst py_replace.simps) auto
next
  case (Cons c s)
  then have ne: "take (length old) (c # s) \<noteq> old"
    by (metis length_take min.strict_order_iff min_less_iff_conj)
  have "py_replace old new (c # s) = c # py_replace old new s"
    using Cons.prems ne by (subst py_replace.simps) auto
  with Cons show ?case by simp
qed

lemma fence_tail: "py_replace (py ''```json'') [] (py ''```'') = py ''```''"
  by (rule py_replace_short) (simp add: py_def)

lemma clean_fenced:
  assumes "96 \<notin> set body"
  shows "clean_plan_text (py ''```json'' @ body @ py ''```'') = body"
proof -
  have h1: "hd (py ''```json'') = 96" and h2: "hd (py ''```'') = 96" by (simp_all add: py_def)
  have s: "py_strip (py ''```json'' @ body @ py ''```'') = py ''```json'' @ body @ py ''```''"
    by (rule py_strip_unchanged) (simp_all add: py_def isspace_def)
  have "py_replace (py ''```json'') [] (py ''```json'' @ body @ py ''```'') =
          py_replace (py ''```json'') [] (body @ py ''```'')"
    by (simp add: py_replace_prefix)
  also have "\<dots> = body @ py_replace (py ''```json'') [] (py ''```'')"
    using assms by (intro py_replace_skip) (simp_all add: py_def)
  also have "\<dots> = body @ py ''```''" by (simp add: fence_tail)
  finally have r1: "py_replace (py ''```json'') [] (py ''```json'' @ body @ py ''```'') =
      body @ py ''```''" .
  have "py_replace (py ''```'') [] (body @ py ''```'') =
          body @ py_replace (py ''```'') [] (py ''```'')"
    using assms by (intro py_replace_skip) (simp_all add: py_def)
  also have "py_replace (py ''```'') [] (py ''```'') = []"
    using py_replace_prefix [of "py ''```''" "[]" "[]"]
    by (simp add: py_replace_empty)
  finally show ?thesis by (simp add: clean_plan_text_def s r1)
qed


lemma sample_configure:
  "k \<noteq> [] \<Longrightarrow>
   configure_nlp_module (sample_world (Some k) reply d) =
     Inr (GenerativeModel (\<lambda>prompt. Inr reply))"
  by (simp add: configure_nlp_module_def sample_world_def)

lemma sample_key_ne: "sample_key \<noteq> []"
  by (simp add: sample_key_def)

lemma clean_fenced_reply: "clean_plan_text fenced_reply = [10] @ scenario_A_text @ [10]"
  unfolding fenced_reply_def
  by (rule clean_fenced) (simp add: scenario_A_text_def py_def)



lemma decode_scenario_A: "json_decode ([10] @ scenario_A_text @ [10]) = Some scenario_A"
  by code_simp



lemma loads_scenario_A: "sample_loads ([10] @ scenario_A_text @ [10]) = Inr scenario_A"
  by (simp add: sample_loads_def decode_scenario_A del: append.simps)





lemma orchestrator_decode_raises:
  assumes "configure_nlp_module W = Inr m" and "generate_automation_plan m p = Inr text"
    and "json_loads W text = Inl e"
  shows "brain_orchestrator W p =
           \<lparr>yields = progress_message text # fst (handlers text e),
            raised = snd (handlers text e), decoded = None, browser_calls = []\<rparr>"
  using assms by (simp add: brain_orchestrator_def)

lemma orchestrator_executes:
  assumes "configure_nlp_module W = Inr m" and "generate_automation_plan m p = Inr text"
    and "json_loads W text = Inr plan"
  shows "brain_orchestrator W p =
           (case fst (execute_playwright_plan W plan) of
              Inr execution_result \<Rightarrow>
                \<lparr>yields = [progress_message text, execution_result], raised = None,
                 decoded = Some plan,
                 browser_calls = calls (snd (execute_playwright_plan W plan))\<rparr>
            | Inl e \<Rightarrow>
                \<lparr>yields = progress_message text # fst (handlers text e),
                 raised = snd (handlers text e), decoded = Some plan,
                 browser_calls = calls (snd (execute_playwright_plan W plan))\<rparr>)"
  using assms by (simp add: brain_orchestrator_def split: prod.splits sum.splits)





lemma orchestrator_streams:
  assumes c: "configure_nlp_module W = Inr m"
    and g: "generate_automation_plan m user_prompt = Inr txt"
    and e: "is_Exception e"
    and a: "json_loads W txt = Inl e \<or>
            (\<exists>plan. json_loads W txt = Inr plan \<and>
                    fst (execute_playwright_plan W plan) = Inl e)"
  shows "raised (brain_orchestrator W user_prompt) = None \<and>
         yields (brain_orchestrator W user_prompt) =
           [progress_message txt,
            if is_JSONDecodeError e then decode_failure_message txt
            else execution_error_message e]"
proof -
  from a consider (loads) "json_loads W txt = Inl e"
    | (run) plan where "json_loads W txt = Inr plan"
        "fst (execute_playwright_plan W plan) = Inl e"
    by blast
  then show ?thesis
  proof cases
    case loads
    from orchestrator_decode_raises [OF c g loads] e show ?thesis
      by (simp add: handlers_def)
  next
    case run
    from orchestrator_executes [OF c g run(1)] run(2) e show ?thesis
      by (simp add: handlers_def)
  qed
qed

lemma orchestrator_raised:
  assumes c: "configure_nlp_module W = Inr m"
    and g: "generate_automation_plan m user_prompt = Inr txt"
    and r: "raised (brain_orchestrator W user_prompt) = Some e"
  shows "\<not> is_Exception e"
proof (cases "json_loads W txt")
  case (Inl x)
  from orchestrator_decode_raises [OF c g Inl] r show ?thesis
    by (auto simp: handlers_def split: if_splits)
next
  case (Inr plan)
  from orchestrator_executes [OF c g Inr] r show ?thesis
    by (auto simp: handlers_def split: if_splits sum.splits)
qed

lemma close_fails_keyed_run:
  "fst (execute_playwright_plan close_fails_keyed scenario_A) = Inl connection_error"
  by (simp add: execute_playwright_plan_def try_body_def acquire_def park_def
      perform_def append_result_def stop_playwright_def initial_state_def scenario_A_def
      navigate_step_def end_step_def dict_get_def close_fails_keyed_def sample_world_def
      failing_at_def)











section \<open>Properties\<close>

text \<open>
  C6. An action whose kind is none of \<^verbatim>\<open>navigate\<close>, \<^verbatim>\<open>type\<close>, \<^verbatim>\<open>click\<close>, \<^verbatim>\<open>extract_text\<close>,
  \<^verbatim>\<open>end\<close> (a missing kind included) is skipped: no browser call is made, no line is
  logged, nothing is raised, and the loop goes on with the next action.
\<close>

theorem unknown_action_is_skipped:
  assumes "dict_get step (py ''action'') \<notin>
             {PStr (py ''navigate''), PStr (py ''type''), PStr (py ''click''),
              PStr (py ''extract_text''), PStr (py ''end'')}"
  shows "exec_step W (PDict step) s = (Inr Next, s) \<and>
         run_steps W (PDict step # rest) s = run_steps W rest s"
  using assms by simp

theorem unknown_action_is_skipped_witness:
  "dict_get [(py ''action'', PStr (py ''scroll'')), (py ''pixels'', PInt 300)] (py ''action'') \<notin>
     {PStr (py ''navigate''), PStr (py ''type''), PStr (py ''click''),
      PStr (py ''extract_text''), PStr (py ''end'')} \<and>
   exec_step all_return
     (PDict [(py ''action'', PStr (py ''scroll'')), (py ''pixels'', PInt 300)]) acquired_state =
     (Inr Next, acquired_state) \<and>
   run_steps all_return
     [PDict [(py ''action'', PStr (py ''scroll'')), (py ''pixels'', PInt 300)],
      PDict [(py ''action'', PStr (py ''end'')), (py ''message'', PStr (py ''done''))]]
     acquired_state =
     (Inr Break, append_result (py ''Task finished: done'') acquired_state)"
proof -
  have h: "dict_get [(py ''action'', PStr (py ''scroll'')), (py ''pixels'', PInt 300)] (py ''action'') \<notin>
     {PStr (py ''navigate''), PStr (py ''type''), PStr (py ''click''),
      PStr (py ''extract_text''), PStr (py ''end'')}"
    by (simp add: dict_get_def)
  have e: "run_steps all_return
     [PDict [(py ''action'', PStr (py ''end'')), (py ''message'', PStr (py ''done''))]]
     acquired_state = (Inr Break, append_result (py ''Task finished: done'') acquired_state)"
    by (simp add: dict_get_def py_append [symmetric])
  from unknown_action_is_skipped [OF h, of all_return acquired_state
      "[PDict [(py ''action'', PStr (py ''end'')), (py ''message'', PStr (py ''done''))]]"] h e
  show ?thesis by (simp del: exec_step.simps run_steps.simps)
qed

text \<open>
  C8. Scenario A: for the plan \<^verbatim>\<open>[{"action":"navigate","url":"https://example.com"},
  {"action":"end","message":"done"}]\<close>, when acquisition and the navigation succeed, the log
  is the line \<^verbatim>\<open>Navigated to https://example.com\<close>, then the line \<^verbatim>\<open>Task finished: done\<close>,
  then the two closing lines (and the error line if \<^verbatim>\<open>page.pause\<close> raises); the only plan
  action attempted is the one \<^verbatim>\<open>goto\<close>.
\<close>

theorem scenario_A_log:
  assumes "acquisition_ok W"
    and "returns (driver W [Start, Launch False, NewPage]
                    (Goto (PStr (py ''https://example.com''))))"
  shows "results (snd (execute_playwright_plan W scenario_A)) =
           [py ''Navigated to https://example.com'', py ''Task finished: done'',
            finished_line, close_line] @
           pause_lines (driver W [Start, Launch False, NewPage,
                                  Goto (PStr (py ''https://example.com''))] Pause) \<and>
         calls (snd (execute_playwright_plan W scenario_A)) =
           [Start, Launch False, NewPage, Goto (PStr (py ''https://example.com'')), Pause] @
           release_calls W [Start, Launch False, NewPage,
                            Goto (PStr (py ''https://example.com'')), Pause]"
proof -
  from assms(2) obtain v where
    g: "driver W (calls acquired_state) (Goto (PStr (py ''https://example.com''))) = Returns v"
    by (auto simp: acquired_state_def elim: returns.elims)
  have it: "py_iter scenario_A =
      Inr [PDict [(py ''action'', PStr (py ''navigate'')),
                   (py ''url'', PStr (py ''https://example.com''))],
            PDict [(py ''action'', PStr (py ''end'')), (py ''message'', PStr (py ''done''))]]"
    by (simp add: scenario_A_def navigate_step_def end_step_def)
  show ?thesis
    unfolding execute_loop_done [OF assms(1) it scenario_A_loop [OF g]]
    by (simp add: acquired_state_def)
qed

theorem scenario_A_log_witness:
  "acquisition_ok all_return \<and>
   returns (driver all_return [Start, Launch False, NewPage]
              (Goto (PStr (py ''https://example.com'')))) \<and>
   results (snd (execute_playwright_plan all_return scenario_A)) =
     [py ''Navigated to https://example.com'', py ''Task finished: done'',
      finished_line, close_line] \<and>
   calls (snd (execute_playwright_plan all_return scenario_A)) =
     [Start, Launch False, NewPage, Goto (PStr (py ''https://example.com'')), Pause,
      BrowserClose, PlaywrightStop]"
proof -
  have b: "returns (driver all_return [Start, Launch False, NewPage]
              (Goto (PStr (py ''https://example.com''))))"
    by (simp add: all_return_def sample_world_def obliging_def)
  from scenario_A_log [OF all_return_ok b] all_return_ok b show ?thesis
    by (simp add: release_calls_def all_return_def sample_world_def obliging_def)
qed

text \<open>
  C9. When the steps before a step complete and that step's browser call raises an
  \<^verbatim>\<open>Exception\<close>, exactly one line, \<^verbatim>\<open>An error occurred: \<close> followed by the message, is
  appended after the lines of the completed steps; the failed call was made once, nothing
  of the remaining actions is run, and only the release calls follow. The lines and calls
  of the completed steps stay.
\<close>

theorem first_step_error_aborts:
  assumes "acquisition_ok W"
    and "run_steps W pre acquired_state = (Inr Next, s1)"
    and "exec_step W (PDict step) s1 = (Inl e, s2)"
    and "is_Exception e"
  shows "results (snd (execute_playwright_plan W (PList (pre @ PDict step # post)))) =
           results s1 @ [py ''An error occurred: '' @ msg e] \<and>
         (\<exists>c. step_calls (PDict step) = [c] \<and> driver W (calls s1) c = Raises e \<and>
              calls (snd (execute_playwright_plan W (PList (pre @ PDict step # post)))) =
                calls s1 @ [c] @ release_calls W (calls s1 @ [c]))"
proof -
  from exec_step_raises [OF assms(3)] obtain c where
    c: "step_calls (PDict step) = [c]" "driver W (calls s1) c = Raises e"
       "results s2 = results s1"
    by blast
  from exec_step_state [OF assms(3)] c have cs: "calls s2 = calls s1 @ [c]" by simp
  have run: "run_steps W (pre @ PDict step # post) acquired_state = (Inl e, s2)"
    using assms(2,3) by (simp add: run_steps_append del: exec_step.simps)
  have it: "py_iter (PList (pre @ PDict step # post)) = Inr (pre @ PDict step # post)" by simp
  show ?thesis
    unfolding execute_loop_raised [OF assms(1) it run]
    using c cs assms(4) by simp
qed

theorem first_step_error_aborts_witness:
  "acquisition_ok click_fails \<and> is_Exception timeout_error \<and>
   results (snd (execute_playwright_plan click_fails
                   (PList [navigate_step, click_step, end_step]))) =
     [py ''Navigated to https://example.com'',
      py ''An error occurred: Timeout 30000ms exceeded.''] \<and>
   calls (snd (execute_playwright_plan click_fails
                 (PList [navigate_step, click_step, end_step]))) =
     [Start, Launch False, NewPage, Goto (PStr (py ''https://example.com'')),
      LocatorClick (PStr (py ''#missing'')), BrowserClose, PlaywrightStop]"
proof -
  have e: "is_Exception timeout_error"
    by (simp add: is_Exception_def timeout_error_def)
  from first_step_error_aborts [OF click_fails_ok click_fails_navigate click_fails_click e,
      of "[end_step]"]
  show ?thesis
    using click_fails_ok e
    by (simp add: click_step_def dict_get_def release_calls_def py_append [symmetric]
        timeout_error_def,
        simp add: click_fails_def sample_world_def failing_at_def)
qed

text \<open>
  C1, as stated, fails: when a step raises (here the click of Scenario C), the two closing
  lines are not appended and \<^verbatim>\<open>page.pause\<close> is not called; the browser is closed at once.
\<close>

theorem step_error_skips_the_pause:
  "acquisition_ok click_fails \<and>
   results (snd (execute_playwright_plan click_fails (PList [click_step]))) =
     [py ''An error occurred: Timeout 30000ms exceeded.''] \<and>
   calls (snd (execute_playwright_plan click_fails (PList [click_step]))) =
     [Start, Launch False, NewPage, LocatorClick (PStr (py ''#missing'')),
      BrowserClose, PlaywrightStop] \<and>
   finished_line \<notin> set (results (snd (execute_playwright_plan click_fails (PList [click_step])))) \<and>
   Pause \<notin> set (calls (snd (execute_playwright_plan click_fails (PList [click_step]))))"
proof -
  have run: "run_steps click_fails [click_step] acquired_state =
      (Inl timeout_error,
       acquired_state\<lparr>calls := calls acquired_state @ [LocatorClick (PStr (py ''#missing''))]\<rparr>)"
    by (simp add: click_step_def click_fails_click del: exec_step.simps)
  have it: "py_iter (PList [click_step]) = Inr [click_step]" by simp
  have r: "release_calls click_fails tr = [BrowserClose, PlaywrightStop]" for tr
    by (simp add: release_calls_def click_fails_def sample_world_def failing_at_def)
  have f: "finished_line \<noteq> py ''An error occurred: Timeout 30000ms exceeded.''"
    by (simp add: finished_line_def py_def)
  show ?thesis
    unfolding execute_loop_raised [OF click_fails_ok it run]
    using click_fails_ok f
    by (simp add: r acquired_state_def timeout_error_def is_Exception_def py_append [symmetric])
qed

text \<open>
  C1, amended. After a successful acquisition: when the loop ends normally (plan exhausted
  or \<^verbatim>\<open>end\<close> reached), the two closing lines are appended, then \<^verbatim>\<open>page.pause\<close> is called,
  then the session is released; when a step raises, the handler's line is appended
  instead, \<^verbatim>\<open>page.pause\<close> is not called and the release follows the failed call directly.
\<close>

theorem pause_only_after_normal_loop_end:
  assumes "acquisition_ok W" and "run_steps W steps acquired_state = (r, s1)"
  shows "(\<forall>f. r = Inr f \<longrightarrow>
            results (snd (execute_playwright_plan W (PList steps))) =
              results s1 @ [finished_line, close_line] @ pause_lines (driver W (calls s1) Pause) \<and>
            calls (snd (execute_playwright_plan W (PList steps))) =
              calls s1 @ [Pause] @ release_calls W (calls s1 @ [Pause])) \<and>
         (\<forall>e. r = Inl e \<longrightarrow>
            results (snd (execute_playwright_plan W (PList steps))) = results s1 @ caught e \<and>
            calls (snd (execute_playwright_plan W (PList steps))) =
              calls s1 @ release_calls W (calls s1) \<and>
            Pause \<notin> set (calls (snd (execute_playwright_plan W (PList steps)))))"
proof (intro conjI allI impI)
  fix f assume "r = Inr f"
  with assms(2) have run: "run_steps W steps acquired_state = (Inr f, s1)" by simp
  have it: "py_iter (PList steps) = Inr steps" by simp
  show "results (snd (execute_playwright_plan W (PList steps))) =
          results s1 @ [finished_line, close_line] @ pause_lines (driver W (calls s1) Pause)"
    unfolding execute_loop_done [OF assms(1) it run] by simp
  show "calls (snd (execute_playwright_plan W (PList steps))) =
          calls s1 @ [Pause] @ release_calls W (calls s1 @ [Pause])"
    unfolding execute_loop_done [OF assms(1) it run] by simp
next
  fix e assume "r = Inl e"
  with assms(2) have run: "run_steps W steps acquired_state = (Inl e, s1)" by simp
  have it: "py_iter (PList steps) = Inr steps" by simp
  show "results (snd (execute_playwright_plan W (PList steps))) = results s1 @ caught e"
    unfolding execute_loop_raised [OF assms(1) it run] by simp
  show "calls (snd (execute_playwright_plan W (PList steps))) =
          calls s1 @ release_calls W (calls s1)"
    unfolding execute_loop_raised [OF assms(1) it run] by simp
  show "Pause \<notin> set (calls (snd (execute_playwright_plan W (PList steps))))"
    unfolding execute_loop_raised [OF assms(1) it run]
    using run_steps_no_pause [OF run] by (simp add: release_calls_def)
qed

theorem pause_only_after_normal_loop_end_witness:
  "acquisition_ok all_return \<and>
   results (snd (execute_playwright_plan all_return (PList [navigate_step, end_step]))) =
     [py ''Navigated to https://example.com'', py ''Task finished: done'',
      finished_line, close_line] \<and>
   calls (snd (execute_playwright_plan all_return (PList [navigate_step, end_step]))) =
     [Start, Launch False, NewPage, Goto (PStr (py ''https://example.com'')), Pause,
      BrowserClose, PlaywrightStop] \<and>
   acquisition_ok click_fails \<and>
   results (snd (execute_playwright_plan click_fails (PList [navigate_step, click_step]))) =
     [py ''Navigated to https://example.com'',
      py ''An error occurred: Timeout 30000ms exceeded.''] \<and>
   calls (snd (execute_playwright_plan click_fails (PList [navigate_step, click_step]))) =
     [Start, Launch False, NewPage, Goto (PStr (py ''https://example.com'')),
      LocatorClick (PStr (py ''#missing'')), BrowserClose, PlaywrightStop]"
proof -
  have run: "run_steps click_fails [navigate_step, click_step] acquired_state =
      (Inl timeout_error,
       acquired_state\<lparr>results := [py ''Navigated to https://example.com''],
                       calls := [Start, Launch False, NewPage,
                                 Goto (PStr (py ''https://example.com'')),
                                 LocatorClick (PStr (py ''#missing''))]\<rparr>)"
  proof -
    have "run_steps click_fails ([navigate_step] @ [click_step]) acquired_state =
        run_steps click_fails [click_step]
          (acquired_state\<lparr>results := [py ''Navigated to https://example.com''],
                          calls := [Start, Launch False, NewPage,
                                    Goto (PStr (py ''https://example.com''))]\<rparr>)"
      by (subst run_steps_append) (simp add: click_fails_navigate del: run_steps.simps)
    then show ?thesis
      by (simp add: click_step_def click_fails_click del: exec_step.simps)
  qed
  have r1: "release_calls all_return tr = [BrowserClose, PlaywrightStop]" for tr
    by (simp add: release_calls_def all_return_def sample_world_def obliging_def)
  have r2: "release_calls click_fails tr = [BrowserClose, PlaywrightStop]" for tr
    by (simp add: release_calls_def click_fails_def sample_world_def failing_at_def)
  have p: "driver all_return tr Pause = Returns PNone" for tr
    by (simp add: all_return_def sample_world_def obliging_def)
  from pause_only_after_normal_loop_end [OF all_return_ok all_return_scenario_A]
    pause_only_after_normal_loop_end [OF click_fails_ok run]
  show ?thesis
    using all_return_ok click_fails_ok
    by (simp add: r1 r2 p timeout_error_def is_Exception_def py_append [symmetric])
qed

text \<open>
  C4, as stated, fails: with an \<^verbatim>\<open>end\<close> action at index 1 behind a click that raises, the
  loop ends with the exception; no \<^verbatim>\<open>Task finished\<close> line is appended.
\<close>

theorem step_error_before_end:
  "[click_step, end_step] ! 1 = end_step \<and>
   fst (run_steps click_fails [click_step, end_step] acquired_state) = Inl timeout_error \<and>
   results (snd (execute_playwright_plan click_fails (PList [click_step, end_step]))) =
     [py ''An error occurred: Timeout 30000ms exceeded.''] \<and>
   py ''Task finished: done'' \<notin>
     set (results (snd (execute_playwright_plan click_fails (PList [click_step, end_step]))))"
proof -
  have run: "run_steps click_fails [click_step, end_step] acquired_state =
      (Inl timeout_error,
       acquired_state\<lparr>calls := calls acquired_state @ [LocatorClick (PStr (py ''#missing''))]\<rparr>)"
    by (simp add: click_step_def click_fails_click del: exec_step.simps)
  have it: "py_iter (PList [click_step, end_step]) = Inr [click_step, end_step]" by simp
  show ?thesis
    unfolding execute_loop_raised [OF click_fails_ok it run] run
    by (simp add: acquired_state_def timeout_error_def is_Exception_def py_append [symmetric])
qed

text \<open>
  C4, amended. With an \<^verbatim>\<open>end\<close> action at index \<open>i\<close>: the execution is that of the plan cut
  after index \<open>i\<close>, so no action behind it is performed; the browser calls of the loop
  are those of the first \<open>k\<close> actions, in input order, for some \<open>k\<close> up to \<open>i + 1\<close>; and
  when the actions before index \<open>i\<close> complete without error and without \<^verbatim>\<open>break\<close>, the
  line \<^verbatim>\<open>Task finished: \<close> with the message is appended and the loop ends normally.
\<close>

theorem end_action_stops_the_plan:
  assumes "i < length steps" and "steps ! i = PDict d"
    and "dict_get d (py ''action'') = PStr (py ''end'')"
  shows "execute_playwright_plan W (PList steps) =
           execute_playwright_plan W (PList (take (Suc i) steps)) \<and>
         (\<exists>k\<le>Suc i. calls (snd (run_steps W steps s)) =
                        calls s @ concat (map step_calls (take k steps))) \<and>
         (\<forall>s1. run_steps W (take i steps) s = (Inr Next, s1) \<longrightarrow>
               run_steps W steps s =
                 (Inr Break,
                  append_result
                    (py ''Task finished: '' @ py_str (repr W) (dict_get d (py ''message''))) s1))"
proof (intro conjI allI impI)
  note cut = run_steps_take_end [OF assms]
  show "execute_playwright_plan W (PList steps) =
          execute_playwright_plan W (PList (take (Suc i) steps))"
  proof -
    have "try_body W (PList steps) initial_state =
            try_body W (PList (take (Suc i) steps)) initial_state"
      by (simp add: try_body_def cut [symmetric] split: prod.splits sum.splits)
    then show ?thesis by (simp add: execute_playwright_plan_def)
  qed
  obtain r s' where rs: "run_steps W (take (Suc i) steps) s = (r, s')"
    by (cases "run_steps W (take (Suc i) steps) s")
  from run_steps_state [OF rs] obtain k where
    k: "k \<le> length (take (Suc i) steps)"
       "calls s' = calls s @ concat (map step_calls (take k (take (Suc i) steps)))"
    by blast
  from k(1) have le: "k \<le> Suc i" by simp
  then have "take k (take (Suc i) steps) = take k steps" by (simp add: min_absorb1)
  with k(2) rs cut [of W s] le
  show "\<exists>k\<le>Suc i. calls (snd (run_steps W steps s)) =
                      calls s @ concat (map step_calls (take k steps))"
    by auto
next
  fix s1 assume pre: "run_steps W (take i steps) s = (Inr Next, s1)"
  have "steps = take i steps @ PDict d # drop (Suc i) steps"
    using assms(1,2) by (metis id_take_nth_drop)
  then have "run_steps W steps s = run_steps W (take i steps @ PDict d # drop (Suc i) steps) s"
    by simp
  also have "\<dots> = run_steps W (PDict d # drop (Suc i) steps) s1"
    by (subst run_steps_append) (simp add: pre del: run_steps.simps)
  also have "\<dots> = (Inr Break,
                  append_result
                    (py ''Task finished: '' @ py_str (repr W) (dict_get d (py ''message''))) s1)"
    using assms(3) by (simp add: exec_step_end del: exec_step.simps)
  finally show "run_steps W steps s =
                 (Inr Break,
                  append_result
                    (py ''Task finished: '' @ py_str (repr W) (dict_get d (py ''message''))) s1)" .
qed

theorem end_action_stops_the_plan_witness:
  "(1::nat) < length [navigate_step, end_step, click_step] \<and>
   [navigate_step, end_step, click_step] ! 1 =
     PDict [(py ''action'', PStr (py ''end'')), (py ''message'', PStr (py ''done''))] \<and>
   dict_get [(py ''action'', PStr (py ''end'')), (py ''message'', PStr (py ''done''))]
     (py ''action'') = PStr (py ''end'') \<and>
   execute_playwright_plan click_fails (PList [navigate_step, end_step, click_step]) =
     execute_playwright_plan click_fails (PList [navigate_step, end_step]) \<and>
   run_steps click_fails [navigate_step, end_step, click_step] acquired_state =
     (Inr Break,
      acquired_state\<lparr>results := [py ''Navigated to https://example.com'',
                                  py ''Task finished: done''],
                      calls := [Start, Launch False, NewPage,
                                Goto (PStr (py ''https://example.com''))]\<rparr>)"
proof -
  have a: "(1::nat) < length [navigate_step, end_step, click_step]" by simp
  have b: "[navigate_step, end_step, click_step] ! 1 =
     PDict [(py ''action'', PStr (py ''end'')), (py ''message'', PStr (py ''done''))]"
    by (simp add: end_step_def)
  have c: "dict_get [(py ''action'', PStr (py ''end'')), (py ''message'', PStr (py ''done''))]
     (py ''action'') = PStr (py ''end'')"
    by (simp add: dict_get_def)
  have pre: "run_steps click_fails (take 1 [navigate_step, end_step, click_step]) acquired_state =
     (Inr Next,
      acquired_state\<lparr>results := [py ''Navigated to https://example.com''],
                      calls := [Start, Launch False, NewPage,
                                Goto (PStr (py ''https://example.com''))]\<rparr>)"
    using click_fails_navigate by simp
  from end_action_stops_the_plan [OF a b c, of click_fails acquired_state] pre a b c
  show ?thesis
    by (simp add: dict_get_def append_result_def py_append [symmetric]
        del: run_steps.simps exec_step.simps)
qed

text \<open>
  C5. The release is not carried through when \<^verbatim>\<open>browser.close()\<close> raises: the
  \<^verbatim>\<open>finally\<close> block is left at once and \<^verbatim>\<open>playwright.stop()\<close> is never called, so the
  driver started at line 63 is not stopped. The plan is that of Scenario A; the
  acquisition and every page call return.
\<close>

theorem close_failure_skips_stop:
  "acquisition_ok close_fails \<and>
   calls (snd (execute_playwright_plan close_fails scenario_A)) =
     [Start, Launch False, NewPage, Goto (PStr (py ''https://example.com'')), Pause,
      BrowserClose] \<and>
   PlaywrightStop \<notin> set (calls (snd (execute_playwright_plan close_fails scenario_A)))"
proof -
  have ok: "acquisition_ok close_fails"
    by (simp add: acquisition_ok_def close_fails_def sample_world_def failing_at_def)
  have g: "driver close_fails (calls acquired_state)
              (Goto (PStr (py ''https://example.com''))) = Returns PNone"
    by (simp add: close_fails_def sample_world_def failing_at_def)
  have r: "release_calls close_fails tr = [BrowserClose]" for tr
    by (simp add: release_calls_def close_fails_def sample_world_def failing_at_def)
  have c: "calls (snd (execute_playwright_plan close_fails scenario_A)) =
     [Start, Launch False, NewPage, Goto (PStr (py ''https://example.com'')), Pause,
      BrowserClose]"
    unfolding execute_loop_done [OF ok scenario_A_iter scenario_A_loop [OF g]]
    by (simp add: r acquired_state_def)
  from ok c show ?thesis by simp
qed

text \<open>
  C10, as stated, fails: an exception raised by a call of the \<^verbatim>\<open>finally\<close> block, here
  \<^verbatim>\<open>playwright.stop()\<close>, leaves the function.
\<close>

theorem stop_failure_propagates:
  "acquisition_ok stop_fails \<and>
   fst (execute_playwright_plan stop_fails scenario_A) = Inl connection_error \<and>
   calls (snd (execute_playwright_plan stop_fails scenario_A)) =
     [Start, Launch False, NewPage, Goto (PStr (py ''https://example.com'')), Pause,
      BrowserClose, PlaywrightStop]"
  by (simp add: acquisition_ok_def execute_playwright_plan_def try_body_def acquire_def park_def
      perform_def append_result_def stop_playwright_def initial_state_def scenario_A_def
      navigate_step_def end_step_def dict_get_def stop_fails_def sample_world_def failing_at_def)

text \<open>
  C10, amended. When \<^verbatim>\<open>browser.close()\<close> and \<^verbatim>\<open>playwright.stop()\<close> return and what the
  driver raises are \<^verbatim>\<open>Exception\<close>s, the function returns, for any plan value at all, the
  log lines joined by newlines; an exception raised inside the \<^verbatim>\<open>try\<close> (session start,
  iteration, any step, the pause) becomes the last line of the log.
\<close>

theorem log_returned_when_release_returns:
  assumes "\<forall>tr. returns (driver W tr BrowserClose)"
    and "\<forall>tr. returns (driver W tr PlaywrightStop)"
    and "\<forall>tr c e. driver W tr c = Raises e \<longrightarrow> is_Exception e"
  shows "fst (execute_playwright_plan W plan) =
           Inr (py_join [10] (results (snd (execute_playwright_plan W plan)))) \<and>
         (\<forall>e s1. try_body W plan initial_state = (Inl e, s1) \<longrightarrow>
            results (snd (execute_playwright_plan W plan)) =
              results s1 @ [py ''An error occurred: '' @ msg e])"
proof -
  obtain r s1 where t: "try_body W plan initial_state = (r, s1)"
    by (cases "try_body W plan initial_state")
  obtain s2 where x: "except_clause (r, s1) = (None, s2)"
    and x2: "\<forall>e. r = Inl e \<longrightarrow> results s2 = results s1 @ [py ''An error occurred: '' @ msg e]"
    using try_body_raises_Exception [OF assms(3)] t
    by (cases r) (auto simp: append_result_def)
  note f = finally_returns [OF assms(1,2), of None s2]
  obtain p s3 where fc: "finally_clause W (None, s2) = (p, s3)"
    by (cases "finally_clause W (None, s2)")
  with f have p: "p = None" and r3: "results s3 = results s2" by simp_all
  have ex: "execute_playwright_plan W plan = (Inr (py_join [10] (results s3)), s3)"
    by (simp add: execute_playwright_plan_def t x fc p del: finally_clause.simps)
  show ?thesis
    using x2 t by (simp add: ex r3)
qed

theorem log_returned_when_release_returns_witness:
  "fst (execute_playwright_plan click_fails (PList [navigate_step, click_step, end_step])) =
     Inr (py ''Navigated to https://example.com'' @ [10] @
          py ''An error occurred: Timeout 30000ms exceeded.'')"
proof -
  have a: "\<forall>tr. returns (driver click_fails tr BrowserClose)"
    by (simp add: click_fails_def sample_world_def failing_at_def)
  have b: "\<forall>tr. returns (driver click_fails tr PlaywrightStop)"
    by (simp add: click_fails_def sample_world_def failing_at_def)
  have c: "\<forall>tr c e. driver click_fails tr c = Raises e \<longrightarrow> is_Exception e"
    by (simp add: click_fails_def sample_world_def failing_at_def timeout_error_def
        is_Exception_def)
  have r: "results (snd (execute_playwright_plan click_fails
                   (PList [navigate_step, click_step, end_step]))) =
     [py ''Navigated to https://example.com'',
      py ''An error occurred: Timeout 30000ms exceeded.'']"
    by (simp add: click_fails_plan)
  from log_returned_when_release_returns [OF a b c,
      of "PList [navigate_step, click_step, end_step]"]
  show ?thesis by (simp add: r)
qed







text \<open>
  C2, as stated, fails for a configuration failure: without API key the \<^verbatim>\<open>ValueError\<close> of
  \<^verbatim>\<open>configure_nlp_module\<close> leaves the orchestrator before anything is yielded.
\<close>

theorem missing_api_key_propagates:
  "brain_orchestrator no_api_key (py ''Go to example.com'') =
     \<lparr>yields = [],
      raised = Some (Exn ValueError
                      (py ''Gemini API key not found. Please set it in the .env file.'')),
      decoded = None, browser_calls = []\<rparr>"
  by (simp add: brain_orchestrator_def configure_nlp_module_def no_api_key_def sample_world_def)

text \<open>
  C2, amended. An exception raised by the configuration or by the translator leaves the
  orchestrator with nothing yielded and no browser call. Once the translator has returned
  a text, every instance of \<^verbatim>\<open>Exception\<close> raised by the decoding or by the executor is
  caught and streamed as the final message (the decode-failure message for a
  \<^verbatim>\<open>JSONDecodeError\<close>, the execution-error message otherwise); what the orchestrator still
  raises then is no instance of \<^verbatim>\<open>Exception\<close>.
\<close>

theorem errors_after_translation_are_streamed:
  "(\<forall>e. configure_nlp_module W = Inl e \<longrightarrow>
        brain_orchestrator W user_prompt =
          \<lparr>yields = [], raised = Some e, decoded = None, browser_calls = []\<rparr>) \<and>
   (\<forall>m e. configure_nlp_module W = Inr m \<and> generate_automation_plan m user_prompt = Inl e \<longrightarrow>
        brain_orchestrator W user_prompt =
          \<lparr>yields = [], raised = Some e, decoded = None, browser_calls = []\<rparr>) \<and>
   (\<forall>m text e.
        configure_nlp_module W = Inr m \<and> generate_automation_plan m user_prompt = Inr text \<and>
        is_Exception e \<and>
        (json_loads W text = Inl e \<or>
         (\<exists>plan. json_loads W text = Inr plan \<and>
                 fst (execute_playwright_plan W plan) = Inl e)) \<longrightarrow>
        raised (brain_orchestrator W user_prompt) = None \<and>
        yields (brain_orchestrator W user_prompt) =
          [progress_message text,
           if is_JSONDecodeError e then decode_failure_message text
           else execution_error_message e]) \<and>
   (\<forall>m text e.
        configure_nlp_module W = Inr m \<and> generate_automation_plan m user_prompt = Inr text \<and>
        raised (brain_orchestrator W user_prompt) = Some e \<longrightarrow> \<not> is_Exception e)"
proof (intro conjI allI impI)
  fix e assume "configure_nlp_module W = Inl e"
  then show "brain_orchestrator W user_prompt =
          \<lparr>yields = [], raised = Some e, decoded = None, browser_calls = []\<rparr>"
    by (simp add: brain_orchestrator_def)
next
  fix m e
  assume "configure_nlp_module W = Inr m \<and> generate_automation_plan m user_prompt = Inl e"
  then show "brain_orchestrator W user_prompt =
          \<lparr>yields = [], raised = Some e, decoded = None, browser_calls = []\<rparr>"
    by (simp add: brain_orchestrator_def)
qed (use orchestrator_streams orchestrator_raised in blast)+

theorem errors_after_translation_are_streamed_witness:
  "brain_orchestrator no_api_key (py ''Go to example.com'') =
     \<lparr>yields = [],
      raised = Some (Exn ValueError
                      (py ''Gemini API key not found. Please set it in the .env file.'')),
      decoded = None, browser_calls = []\<rparr> \<and>
   brain_orchestrator translator_down (py ''Go to example.com'') =
     \<lparr>yields = [], raised = Some unavailable, decoded = None, browser_calls = []\<rparr> \<and>
   raised (brain_orchestrator close_fails_keyed (py ''Go to example.com'')) = None \<and>
   yields (brain_orchestrator close_fails_keyed (py ''Go to example.com'')) =
     [progress_message ([10] @ scenario_A_text @ [10]),
      py ''An execution error occurred: Connection closed while reading from the driver'']"
proof -
  have c1: "configure_nlp_module no_api_key =
      Inl (Exn ValueError (py ''Gemini API key not found. Please set it in the .env file.''))"
    by (simp add: configure_nlp_module_def no_api_key_def sample_world_def)
  have c2: "configure_nlp_module translator_down =
      Inr (GenerativeModel (\<lambda>prompt. Inl unavailable))"
    by (simp add: configure_nlp_module_def translator_down_def scenario_A_world_def
        sample_world_def sample_key_ne)
  have g2: "generate_automation_plan (GenerativeModel (\<lambda>prompt. Inl unavailable))
      (py ''Go to example.com'') = Inl unavailable"
    by simp
  have c3: "configure_nlp_module close_fails_keyed =
      Inr (GenerativeModel (\<lambda>prompt. Inr fenced_reply))"
    by (simp add: close_fails_keyed_def sample_configure sample_key_ne)
  have g3: "generate_automation_plan (GenerativeModel (\<lambda>prompt. Inr fenced_reply))
      (py ''Go to example.com'') = Inr ([10] @ scenario_A_text @ [10])"
    by (simp add: clean_fenced_reply del: append.simps)
  have l3: "json_loads close_fails_keyed ([10] @ scenario_A_text @ [10]) = Inr scenario_A"
    by (simp add: close_fails_keyed_def sample_world_def loads_scenario_A del: append.simps)
  have e3: "is_Exception connection_error" "\<not> is_JSONDecodeError connection_error"
    by (simp_all add: is_Exception_def is_JSONDecodeError_def connection_error_def)
  have x3: "\<exists>plan. json_loads close_fails_keyed ([10] @ scenario_A_text @ [10]) = Inr plan \<and>
      fst (execute_playwright_plan close_fails_keyed plan) = Inl connection_error"
    using l3 close_fails_keyed_run by blast
  note t = errors_after_translation_are_streamed
  from t [of no_api_key "py ''Go to example.com''"] c1
  have p1: "brain_orchestrator no_api_key (py ''Go to example.com'') =
     \<lparr>yields = [],
      raised = Some (Exn ValueError
                      (py ''Gemini API key not found. Please set it in the .env file.'')),
      decoded = None, browser_calls = []\<rparr>" by blast
  from t [of translator_down "py ''Go to example.com''"] c2 g2
  have p2: "brain_orchestrator translator_down (py ''Go to example.com'') =
     \<lparr>yields = [], raised = Some unavailable, decoded = None, browser_calls = []\<rparr>" by blast
  from t [of close_fails_keyed "py ''Go to example.com''"] c3 g3 e3(1) x3
  have p3: "raised (brain_orchestrator close_fails_keyed (py ''Go to example.com'')) = None \<and>
        yields (brain_orchestrator close_fails_keyed (py ''Go to example.com'')) =
          [progress_message ([10] @ scenario_A_text @ [10]),
           if is_JSONDecodeError connection_error
           then decode_failure_message ([10] @ scenario_A_text @ [10])
           else execution_error_message connection_error]" by blast
  from p1 p2 p3 e3(2) show ?thesis
    by (simp add: execution_error_message_def connection_error_def py_append [symmetric]
        del: append.simps)
qed

end
